theory Spec2Isabelle
  imports Main "HOL-Library.Sublist"
begin

section \<open>Pipeline A: the follower-gap report\<close>

text \<open>
  The script \<^verbatim>\<open>Export followers without following.py\<close> loads two JSON exports,
  pulls a (username, timestamp, link) triple out of every followed account, keeps the
  triples whose username is not among the followers, and hands the rows to the
  spreadsheet library.
\<close>

subsection \<open>Decoded JSON values and Python's operations on them\<close>

text \<open>
  What \<^verbatim>\<open>json.load\<close> returns: \<^verbatim>\<open>None\<close>, booleans, integers, strings, lists
  and dicts with string keys. A dict is the list of its items in insertion order (the
  keys of a decoded dict are distinct; lookup takes the first item with the key).
  Numbers with a fraction or an exponent (Python floats) are not part of this model.
\<close>

datatype json =
    JNull
  | JBool bool
  | JInt int
  | JStr string
  | JList "json list"
  | JDict "(string \<times> json) list"

datatype error =
    FileNotFoundError string
  | DecodeError
  | KeyError json
  | IndexError
  | TypeError
  | AttributeError
  | RefreshError
  | FlowError

text \<open>Python's \<^verbatim>\<open>==\<close> on decoded values: \<^verbatim>\<open>True == 1\<close> and \<^verbatim>\<open>False == 0\<close> hold,
  lists compare element by element, dicts compare as sets of items.\<close>

fun py_eq :: "json \<Rightarrow> json \<Rightarrow> bool" where
  "py_eq JNull JNull = True"
| "py_eq (JBool a) (JBool b) = (a = b)"
| "py_eq (JBool a) (JInt n) = ((if a then 1 else 0) = n)"
| "py_eq (JInt n) (JBool b) = (n = (if b then 1 else 0))"
| "py_eq (JInt m) (JInt n) = (m = n)"
| "py_eq (JStr s) (JStr t) = (s = t)"
| "py_eq (JList xs) (JList ys) = list_all2 py_eq xs ys"
| "py_eq (JDict a) (JDict b) =
     (length a = length b \<and>
      (\<forall>(k, v) \<in> set a. case map_of b k of None \<Rightarrow> False | Some w \<Rightarrow> py_eq v w))"
| "py_eq _ _ = False"

text \<open>\<^verbatim>\<open>x in ys\<close> for a list \<^verbatim>\<open>ys\<close>: some element equals \<^verbatim>\<open>x\<close>.\<close>

definition py_in :: "json \<Rightarrow> json list \<Rightarrow> bool" where
  "py_in x ys = list_ex (py_eq x) ys"

text \<open>\<^verbatim>\<open>obj["k"]\<close>: only a dict accepts a string subscript.\<close>

definition subscript_key :: "json \<Rightarrow> string \<Rightarrow> error + json" where
  "subscript_key obj k =
     (case obj of
        JDict kvs \<Rightarrow> (case map_of kvs k of Some v \<Rightarrow> Inr v | None \<Rightarrow> Inl (KeyError (JStr k)))
      | _ \<Rightarrow> Inl TypeError)"

text \<open>\<^verbatim>\<open>obj[0]\<close>: the first element of a list, the first character of a string; a
  dict has no key \<^verbatim>\<open>0\<close> (its keys are strings).\<close>

definition subscript_0 :: "json \<Rightarrow> error + json" where
  "subscript_0 obj =
     (case obj of
        JList xs \<Rightarrow> (case xs of [] \<Rightarrow> Inl IndexError | x # _ \<Rightarrow> Inr x)
      | JStr s \<Rightarrow> (case s of [] \<Rightarrow> Inl IndexError | c # _ \<Rightarrow> Inr (JStr [c]))
      | JDict kvs \<Rightarrow> Inl (KeyError (JInt 0))
      | _ \<Rightarrow> Inl TypeError)"

text \<open>\<^verbatim>\<open>obj.get(k, default)\<close>: a method of dicts only.\<close>

definition py_get :: "json \<Rightarrow> string \<Rightarrow> json \<Rightarrow> error + json" where
  "py_get obj k dflt =
     (case obj of
        JDict kvs \<Rightarrow> Inr (case map_of kvs k of Some v \<Rightarrow> v | None \<Rightarrow> dflt)
      | _ \<Rightarrow> Inl AttributeError)"

text \<open>\<^verbatim>\<open>for entry in obj\<close>: the elements of a list, the characters of a string,
  the keys of a dict.\<close>

definition py_iter :: "json \<Rightarrow> error + json list" where
  "py_iter obj =
     (case obj of
        JList xs \<Rightarrow> Inr xs
      | JStr s \<Rightarrow> Inr (map (\<lambda>c. JStr [c]) s)
      | JDict kvs \<Rightarrow> Inr (map (\<lambda>kv. JStr (fst kv)) kvs)
      | _ \<Rightarrow> Inl TypeError)"

text \<open>A list comprehension whose element expression may raise: the first error ends it.\<close>

fun collect :: "('a \<Rightarrow> error + 'b) \<Rightarrow> 'a list \<Rightarrow> error + 'b list" where
  "collect f [] = Inr []"
| "collect f (x # xs) =
     (case f x of
        Inl e \<Rightarrow> Inl e
      | Inr y \<Rightarrow> (case collect f xs of Inl e \<Rightarrow> Inl e | Inr ys \<Rightarrow> Inr (y # ys)))"

text \<open>How a value is rendered inside an f-string: a string as itself; the text of any
  other value is Python's \<^verbatim>\<open>str\<close>, taken as the parameter \<open>str_of\<close>.\<close>

definition py_format :: "(json \<Rightarrow> string) \<Rightarrow> json \<Rightarrow> string" where
  "py_format str_of v = (case v of JStr s \<Rightarrow> s | _ \<Rightarrow> str_of v)"

subsection \<open>Files\<close>

text \<open>A table as the spreadsheet library holds it: its column labels and its rows.\<close>

record 'c frame =
  columns :: "string list"
  rows :: "'c list list"

text \<open>A file holds a JSON document, text that does not decode as JSON, or a sheet.\<close>

datatype content = Json json | Undecodable | Sheet "json frame"

type_synonym files = "string \<Rightarrow> content option"

definition load_json_file :: "files \<Rightarrow> string \<Rightarrow> error + json" where
  "load_json_file fs filename =
     (case fs filename of
        None \<Rightarrow> Inl (FileNotFoundError filename)
      | Some (Json doc) \<Rightarrow> Inr doc
      | Some _ \<Rightarrow> Inl DecodeError)"

definition following_json :: string where
  "following_json = ''followers_and_following/following.json''"

definition followers_json :: string where
  "followers_json = ''followers_and_following/followers.json''"

definition output_file :: string where
  "output_file = ''not_following_back_detailed.xlsx''"

subsection \<open>Extraction\<close>

text \<open>\<^verbatim>\<open>entry["string_list_data"][0]\<close>\<close>

definition first_record :: "json \<Rightarrow> error + json" where
  "first_record entry =
     (case subscript_key entry ''string_list_data'' of
        Inl e \<Rightarrow> Inl e
      | Inr l \<Rightarrow> subscript_0 l)"

text \<open>\<^verbatim>\<open>entry["string_list_data"][0][k]\<close>\<close>

definition record_field :: "json \<Rightarrow> string \<Rightarrow> error + json" where
  "record_field entry k =
     (case first_record entry of Inl e \<Rightarrow> Inl e | Inr r \<Rightarrow> subscript_key r k)"

text \<open>\<^verbatim>\<open>entry["string_list_data"][0].get("timestamp", "N/A")\<close>\<close>

definition record_timestamp :: "json \<Rightarrow> error + json" where
  "record_timestamp entry =
     (case first_record entry of
        Inl e \<Rightarrow> Inl e
      | Inr r \<Rightarrow> py_get r ''timestamp'' (JStr ''N/A''))"

text \<open>The tuple of one followed account; its components are evaluated left to right.\<close>

definition following_entry :: "json \<Rightarrow> error + (json \<times> json \<times> json)" where
  "following_entry entry =
     (case record_field entry ''value'' of
        Inl e \<Rightarrow> Inl e
      | Inr username \<Rightarrow>
          (case record_timestamp entry of
             Inl e \<Rightarrow> Inl e
           | Inr timestamp \<Rightarrow>
               (case record_field entry ''href'' of
                  Inl e \<Rightarrow> Inl e
                | Inr url \<Rightarrow> Inr (username, timestamp, url))))"

definition following :: "json \<Rightarrow> error + (json \<times> json \<times> json) list" where
  "following following_data =
     (case py_get following_data ''relationships_following'' (JList []) of
        Inl e \<Rightarrow> Inl e
      | Inr l \<Rightarrow>
          (case py_iter l of
             Inl e \<Rightarrow> Inl e
           | Inr entries \<Rightarrow> collect following_entry entries))"

definition followers :: "json \<Rightarrow> error + json list" where
  "followers followers_data =
     (case py_iter followers_data of
        Inl e \<Rightarrow> Inl e
      | Inr entries \<Rightarrow> collect (\<lambda>entry. record_field entry ''value'') entries)"

subsection \<open>The gap and the report\<close>

definition hyperlink :: "(json \<Rightarrow> string) \<Rightarrow> json \<Rightarrow> json \<Rightarrow> string" where
  "hyperlink str_of url username =
     ''=HYPERLINK(\"'' @ py_format str_of url @ ''\", \"'' @ py_format str_of username @ ''\")''"

text \<open>One row of the report: a dict with three keys.\<close>

definition gap_row :: "(json \<Rightarrow> string) \<Rightarrow> json \<times> json \<times> json \<Rightarrow> (string \<times> json) list" where
  "gap_row str_of e =
     (case e of (username, timestamp, url) \<Rightarrow>
        [(''Username'', username),
         (''Followed At'', timestamp),
         (''Profile URL'', JStr (hyperlink str_of url username))])"

definition not_following_back ::
  "(json \<Rightarrow> string) \<Rightarrow> (json \<times> json \<times> json) list \<Rightarrow> json list \<Rightarrow> (string \<times> json) list list"
where
  "not_following_back str_of fing fers =
     [gap_row str_of e. e \<leftarrow> fing, \<not> py_in (fst e) fers]"

text \<open>\<^verbatim>\<open>pd.DataFrame(records)\<close> for a list of dicts: the columns are the keys of the
  dicts in the order of their first appearance, so a list with no dict gives a frame
  with no column. A key a dict lacks gives a missing cell, written \<open>JNull\<close>.\<close>

fun add_keys :: "string list \<Rightarrow> string list \<Rightarrow> string list" where
  "add_keys seen [] = seen"
| "add_keys seen (k # ks) = add_keys (if k \<in> set seen then seen else seen @ [k]) ks"

fun key_union :: "string list \<Rightarrow> (string \<times> json) list list \<Rightarrow> string list" where
  "key_union seen [] = seen"
| "key_union seen (r # rs) = key_union (add_keys seen (map fst r)) rs"

definition DataFrame :: "(string \<times> json) list list \<Rightarrow> json frame" where
  "DataFrame records =
     (let cols = key_union [] records
      in \<lparr>columns = cols,
          rows = map (\<lambda>r. map (\<lambda>c. case map_of r c of Some v \<Rightarrow> v | None \<Rightarrow> JNull) cols) records\<rparr>)"

text \<open>\<^verbatim>\<open>df.to_excel(path, index=False)\<close>: the file at the path is replaced by the
  frame, header row first.\<close>

definition to_excel :: "json frame \<Rightarrow> string \<Rightarrow> files \<Rightarrow> files" where
  "to_excel df path fs = fs(path \<mapsto> Sheet df)"

text \<open>How a script ends: it runs to its last line, an uncaught exception ends it, or
  it calls \<^verbatim>\<open>exit()\<close>.\<close>

datatype outcome = Completed | Raised error | Exited

text \<open>The script from top to bottom. An uncaught exception ends the run where it is
  raised, with the files as they are at that point.\<close>

definition pipeline_A :: "(json \<Rightarrow> string) \<Rightarrow> files \<Rightarrow> outcome \<times> files" where
  "pipeline_A str_of fs =
     (case load_json_file fs following_json of
        Inl e \<Rightarrow> (Raised e, fs)
      | Inr following_data \<Rightarrow>
     (case load_json_file fs followers_json of
        Inl e \<Rightarrow> (Raised e, fs)
      | Inr followers_data \<Rightarrow>
     (case following following_data of
        Inl e \<Rightarrow> (Raised e, fs)
      | Inr fing \<Rightarrow>
     (case followers followers_data of
        Inl e \<Rightarrow> (Raised e, fs)
      | Inr fers \<Rightarrow>
          (Completed,
           to_excel (DataFrame (not_following_back str_of fing fers)) output_file fs)))))"

section \<open>Pipeline B: the bulk mailer\<close>

text \<open>
  The script \<^verbatim>\<open>Email_Jobs_Sender.py\<close> reads the column Email of a workbook, obtains
  a credential, sends one message to every address and rewrites the workbook with the
  rows whose Email cell is among the addresses that failed.
\<close>

subsection \<open>The recipient list\<close>

text \<open>A cell as \<^verbatim>\<open>read_excel\<close> returns it: missing (pandas' NaN), a string, or a
  value that is not a string (a number, a date, a boolean), carried with the text that
  \<^verbatim>\<open>astype(str)\<close> gives it.\<close>

datatype cell = NaN | Text string | NonText string

text \<open>The characters Python's \<^verbatim>\<open>str.strip()\<close> removes, for code points below 256:
  tab to carriage return, the four separators \<^verbatim>\<open>\x1c\<close> to \<^verbatim>\<open>\x1f\<close>, the space,
  \<^verbatim>\<open>\x85\<close> and \<^verbatim>\<open>\xa0\<close>.\<close>

definition py_isspace :: "char \<Rightarrow> bool" where
  "py_isspace c =
     (let n = (of_char c :: nat)
      in (9 \<le> n \<and> n \<le> 13) \<or> (28 \<le> n \<and> n \<le> 32) \<or> n = 133 \<or> n = 160)"

definition strip :: "string \<Rightarrow> string" where
  "strip s = rev (dropWhile py_isspace (rev (dropWhile py_isspace s)))"

text \<open>A row shorter than the header is read with missing cells at its end.\<close>

definition cell_at :: "cell list \<Rightarrow> nat \<Rightarrow> cell" where
  "cell_at r i = (if i < length r then r ! i else NaN)"

fun index_of :: "string \<Rightarrow> string list \<Rightarrow> nat option" where
  "index_of k [] = None"
| "index_of k (c # cs) =
     (if c = k then Some 0 else (case index_of k cs of None \<Rightarrow> None | Some i \<Rightarrow> Some (Suc i)))"

text \<open>\<^verbatim>\<open>df[name]\<close>: the cells of one column, top to bottom.\<close>

definition column :: "cell frame \<Rightarrow> string \<Rightarrow> error + cell list" where
  "column df name =
     (case index_of name (columns df) of
        None \<Rightarrow> Inl (KeyError (JStr name))
      | Some i \<Rightarrow> Inr (map (\<lambda>r. cell_at r i) (rows df)))"

definition dropna :: "cell list \<Rightarrow> cell list" where
  "dropna cs = filter (\<lambda>c. c \<noteq> NaN) cs"

fun astype_str :: "cell \<Rightarrow> string" where
  "astype_str NaN = ''nan''"
| "astype_str (Text s) = s"
| "astype_str (NonText t) = t"

text \<open>\<^verbatim>\<open>df["Email"].dropna().astype(str).str.strip().tolist()\<close>\<close>

definition emails :: "cell frame \<Rightarrow> error + string list" where
  "emails df =
     (case column df ''Email'' of
        Inl e \<Rightarrow> Inl e
      | Inr cs \<Rightarrow> Inr (map strip (map astype_str (dropna cs))))"

subsection \<open>The credential\<close>

text \<open>The attributes of the credential object that the script reads.\<close>

record credentials =
  valid :: bool
  expired :: bool
  refresh_token :: "string option"

text \<open>The two files the script reads and writes: the workbook \<^verbatim>\<open>Email List.xlsx\<close>
  (\<open>None\<close>: there is no workbook to read at the path) and \<^verbatim>\<open>token.pickle\<close>
  (\<open>None\<close>: the file does not exist).\<close>

record disk =
  email_list :: "cell frame option"
  token_pickle :: "credentials option"

text \<open>What lies outside the script: the token refresh, the interactive authorization
  (reading \<^verbatim>\<open>credentials.json\<close> and running the local server), and the mail API, which
  answers the \<open>i\<close>-th send, to a given address, with success or with an exception.\<close>

record env =
  refresh :: "credentials \<Rightarrow> error + credentials"
  run_local_server :: "error + credentials"
  send :: "nat \<Rightarrow> string \<Rightarrow> bool"

datatype auth_step = Refresh | Interactive | SaveToken

definition save_token :: "credentials \<Rightarrow> disk \<Rightarrow> disk" where
  "save_token c d = d\<lparr>token_pickle := Some c\<rparr>"

text \<open>Python's truth value of \<^verbatim>\<open>creds.refresh_token\<close>: \<^verbatim>\<open>None\<close> and the empty
  string are false.\<close>

definition truthy :: "string option \<Rightarrow> bool" where
  "truthy t = (case t of None \<Rightarrow> False | Some s \<Rightarrow> s \<noteq> [])"

text \<open>The end of the branch that obtains a credential: an exception of the refresh or
  of the flow is not caught; otherwise the credential is written to \<^verbatim>\<open>token.pickle\<close>.\<close>

definition persist ::
  "error + credentials \<Rightarrow> auth_step list \<Rightarrow> disk \<Rightarrow> (error + credentials) \<times> disk \<times> auth_step list"
where
  "persist r steps d =
     (case r of
        Inl e \<Rightarrow> (Inl e, d, steps)
      | Inr c \<Rightarrow> (Inr c, save_token c d, steps @ [SaveToken]))"

text \<open>The credential manager: the credential (or the exception that ends the run), the
  files afterwards, and the steps taken.\<close>

definition creds :: "env \<Rightarrow> disk \<Rightarrow> (error + credentials) \<times> disk \<times> auth_step list" where
  "creds ev d =
     (case token_pickle d of
        None \<Rightarrow> persist (run_local_server ev) [Interactive] d
      | Some c \<Rightarrow>
          if \<not> valid c then
            (if expired c \<and> truthy (refresh_token c)
             then persist (refresh ev c) [Refresh] d
             else persist (run_local_server ev) [Interactive] d)
          else (Inr c, d, []))"

subsection \<open>Dispatch and the rewritten list\<close>

text \<open>The loop over the recipients: \<open>i\<close> counts the sends made so far, and an address
  whose send raises is appended to \<open>failed\<close>.\<close>

fun failed_emails :: "(nat \<Rightarrow> string \<Rightarrow> bool) \<Rightarrow> nat \<Rightarrow> string list \<Rightarrow> string list \<Rightarrow> string list" where
  "failed_emails ok i [] failed = failed"
| "failed_emails ok i (email # rest) failed =
     failed_emails ok (Suc i) rest (if ok i email then failed else failed @ [email])"

text \<open>\<^verbatim>\<open>Series.isin(values)\<close> for a list of strings: a string cell equal to one of
  them.\<close>

fun isin :: "cell \<Rightarrow> string list \<Rightarrow> bool" where
  "isin (Text s) values = (s \<in> set values)"
| "isin _ values = False"

text \<open>\<^verbatim>\<open>df[df["Email"].isin(failed_emails)]\<close>: the rows whose Email cell is selected,
  in their order, under the same header.\<close>

definition remaining_df :: "cell frame \<Rightarrow> string list \<Rightarrow> error + cell frame" where
  "remaining_df df failed =
     (case index_of ''Email'' (columns df) of
        None \<Rightarrow> Inl (KeyError (JStr ''Email''))
      | Some i \<Rightarrow> Inr (df\<lparr>rows := filter (\<lambda>r. isin (cell_at r i) failed) (rows df)\<rparr>))"

text \<open>The script from top to bottom. A failure of the first step is caught and ends the
  run with \<^verbatim>\<open>exit()\<close>; an exception of the credential manager is not caught; an
  exception inside one send is caught and recorded; a failure of the last step is caught
  and only printed. Building the service object from the credential (line 81) is taken
  to succeed.\<close>

definition pipeline_B :: "env \<Rightarrow> disk \<Rightarrow> outcome \<times> disk" where
  "pipeline_B ev d =
     (case email_list d of
        None \<Rightarrow> (Exited, d)
      | Some df \<Rightarrow>
     (case emails df of
        Inl e \<Rightarrow> (Exited, d)
      | Inr recipients \<Rightarrow>
     (case creds ev d of
        (Inl e, d', steps) \<Rightarrow> (Raised e, d')
      | (Inr c, d', steps) \<Rightarrow>
          (let failed = failed_emails (send ev) 0 recipients []
           in case remaining_df df failed of
                Inl e \<Rightarrow> (Completed, d')
              | Inr kept \<Rightarrow> (Completed, d'\<lparr>email_list := Some kept\<rparr>)))))"

section \<open>Concrete inputs\<close>

text \<open>A rendering of the values that are not strings, for the examples.\<close>

definition sample_str :: "json \<Rightarrow> string" where
  "sample_str v = (case v of JNull \<Rightarrow> ''None'' | JBool b \<Rightarrow> (if b then ''True'' else ''False'') | _ \<Rightarrow> ''?'')"

definition sample_following :: "(json \<times> json \<times> json) list" where
  "sample_following =
     [(JStr ''a'', JInt 100, JStr ''u/a''), (JStr ''b'', JStr ''N/A'', JStr ''u/b'')]"

definition sample_followers :: "json list" where
  "sample_followers = [JStr ''b'']"

text \<open>One exported record, of the account \<^verbatim>\<open>b\<close>, without a timestamp.\<close>

definition entry_b :: json where
  "entry_b = JDict [(''title'', JStr ''''),
                    (''string_list_data'', JList [JDict [(''href'', JStr ''u/b''), (''value'', JStr ''b'')]])]"

text \<open>File systems for the examples.\<close>

definition files_nothing_followed :: files where
  "files_nothing_followed =
     [following_json \<mapsto> Json (JDict [(''relationships_following'', JList [])]),
      followers_json \<mapsto> Json (JList [entry_b])]"

definition files_no_following :: files where
  "files_no_following = [followers_json \<mapsto> Json (JList [entry_b])]"

definition files_no_followers :: files where
  "files_no_followers = [following_json \<mapsto> Json (JDict [(''relationships_following'', JList [entry_b])])]"

definition files_no_key :: files where
  "files_no_key = [following_json \<mapsto> Json (JDict []), followers_json \<mapsto> Json (JList [entry_b])]"

text \<open>Credentials, oracles, sheets and disks for the examples of Pipeline B.\<close>

definition stale_token :: credentials where
  "stale_token = \<lparr>valid = False, expired = True, refresh_token = Some ''1//refresh''\<rparr>"

definition fresh_token :: credentials where
  "fresh_token = \<lparr>valid = True, expired = False, refresh_token = Some ''1//refresh''\<rparr>"

definition refresh_fails :: "credentials \<Rightarrow> error + credentials" where
  "refresh_fails c = Inl RefreshError"

definition refresh_works :: "credentials \<Rightarrow> error + credentials" where
  "refresh_works c = Inr (c\<lparr>valid := True, expired := False\<rparr>)"

definition all_fail :: "nat \<Rightarrow> string \<Rightarrow> bool" where
  "all_fail i email = False"

definition second_succeeds :: "nat \<Rightarrow> string \<Rightarrow> bool" where
  "second_succeeds i email = (i = 1)"

definition sheet_one :: "cell frame" where
  "sheet_one = \<lparr>columns = [''Email''], rows = [[Text ''y@x.org'']]\<rparr>"

definition sheet_twice :: "cell frame" where
  "sheet_twice = \<lparr>columns = [''Email''], rows = [[Text ''y@x.org''], [Text ''y@x.org'']]\<rparr>"

definition sheet_padded :: "cell frame" where
  "sheet_padded = \<lparr>columns = [''Email''], rows = [[Text '' a@b.com '']]\<rparr>"

definition env_refresh_fails :: env where
  "env_refresh_fails =
     \<lparr>refresh = refresh_fails, run_local_server = Inr fresh_token, send = all_fail\<rparr>"

definition env_all_fail :: env where
  "env_all_fail =
     \<lparr>refresh = refresh_works, run_local_server = Inr fresh_token, send = all_fail\<rparr>"

definition env_second_succeeds :: env where
  "env_second_succeeds =
     \<lparr>refresh = refresh_works, run_local_server = Inr fresh_token, send = second_succeeds\<rparr>"

definition disk_stale :: disk where
  "disk_stale = \<lparr>email_list = Some sheet_one, token_pickle = Some stale_token\<rparr>"

definition disk_twice :: disk where
  "disk_twice = \<lparr>email_list = Some sheet_twice, token_pickle = Some fresh_token\<rparr>"

definition disk_padded :: disk where
  "disk_padded = \<lparr>email_list = Some sheet_padded, token_pickle = Some fresh_token\<rparr>"

section \<open>Properties of Pipeline A\<close>

subsection \<open>The gap\<close>

lemma py_eq_JStr: "py_eq (JStr s) y \<longleftrightarrow> y = JStr s"
  by (cases y) auto

lemma py_in_JStr: "py_in (JStr s) ys \<longleftrightarrow> JStr s \<in> set ys"
  by (auto simp: py_in_def list_ex_iff py_eq_JStr)

lemma not_following_back_filter:
  "not_following_back sf fing fers = map (gap_row sf) (filter (\<lambda>e. \<not> py_in (fst e) fers) fing)"
  by (induction fing) (auto simp: not_following_back_def)

lemma gap_row_Username: "map_of (gap_row sf e) ''Username'' = Some (fst e)"
  by (cases e) (simp add: gap_row_def)

lemma gap_row_in_iff:
  assumes "e \<in> set fing"
  shows "gap_row sf e \<in> set (not_following_back sf fing fers) \<longleftrightarrow> \<not> py_in (fst e) fers"
proof
  assume "gap_row sf e \<in> set (not_following_back sf fing fers)"
  then obtain e' where e': "\<not> py_in (fst e') fers" "gap_row sf e' = gap_row sf e"
    by (auto simp: not_following_back_filter)
  from e'(2) have "fst e' = fst e"
    using gap_row_Username[of sf e'] gap_row_Username[of sf e] by simp
  with e'(1) show "\<not> py_in (fst e) fers" by simp
next
  assume "\<not> py_in (fst e) fers"
  with assms show "gap_row sf e \<in> set (not_following_back sf fing fers)"
    by (auto simp: not_following_back_filter)
qed

text \<open>
  Claim C1. For every following list and followers list, the rows of the report are the
  rows of the following entries whose username is not among the followers: the row of
  an entry \<open>e\<close> of the following list is in the output if and only if \<^verbatim>\<open>username in followers\<close>
  is false for it, and no row of the output carries a username that is among the
  followers. Membership is Python's \<^verbatim>\<open>in\<close>; on strings it is membership in the list
  (\<open>py_in_JStr\<close>).
\<close>

theorem gap_rows_are_the_unfollowed:
  "set (not_following_back sf fing fers) = gap_row sf ` {e \<in> set fing. \<not> py_in (fst e) fers}
   \<and> (e \<in> set fing \<longrightarrow>
        (gap_row sf e \<in> set (not_following_back sf fing fers)) = (\<not> py_in (fst e) fers))
   \<and> (\<forall>r \<in> set (not_following_back sf fing fers).
        \<forall>u. map_of r ''Username'' = Some u \<longrightarrow> \<not> py_in u fers)"
proof (intro conjI)
  show "set (not_following_back sf fing fers) = gap_row sf ` {e \<in> set fing. \<not> py_in (fst e) fers}"
    by (auto simp: not_following_back_filter)
  show "e \<in> set fing \<longrightarrow>
        (gap_row sf e \<in> set (not_following_back sf fing fers)) = (\<not> py_in (fst e) fers)"
    using gap_row_in_iff by blast
  show "\<forall>r \<in> set (not_following_back sf fing fers).
        \<forall>u. map_of r ''Username'' = Some u \<longrightarrow> \<not> py_in u fers"
    by (auto simp: not_following_back_filter gap_row_Username)
qed

theorem gap_rows_are_the_unfollowed_witness:
  "(JStr ''a'', JInt 100, JStr ''u/a'') \<in> set sample_following
   \<and> \<not> py_in (JStr ''a'') sample_followers
   \<and> gap_row sample_str (JStr ''a'', JInt 100, JStr ''u/a'')
       \<in> set (not_following_back sample_str sample_following sample_followers)
   \<and> (JStr ''b'', JStr ''N/A'', JStr ''u/b'') \<in> set sample_following
   \<and> py_in (JStr ''b'') sample_followers
   \<and> gap_row sample_str (JStr ''b'', JStr ''N/A'', JStr ''u/b'')
       \<notin> set (not_following_back sample_str sample_following sample_followers)"
proof -
  have a: "(JStr ''a'', JInt 100, JStr ''u/a'') \<in> set sample_following"
    and b: "(JStr ''b'', JStr ''N/A'', JStr ''u/b'') \<in> set sample_following"
    by (simp_all add: sample_following_def)
  have na: "\<not> py_in (JStr ''a'') sample_followers" and nb: "py_in (JStr ''b'') sample_followers"
    by (simp_all add: sample_followers_def py_in_def)
  have "gap_row sample_str (JStr ''a'', JInt 100, JStr ''u/a'')
          \<in> set (not_following_back sample_str sample_following sample_followers)"
    using gap_rows_are_the_unfollowed
      [of sample_str sample_following sample_followers "(JStr ''a'', JInt 100, JStr ''u/a'')",
        THEN conjunct2, THEN conjunct1]
      a na by simp
  moreover have "gap_row sample_str (JStr ''b'', JStr ''N/A'', JStr ''u/b'')
          \<notin> set (not_following_back sample_str sample_following sample_followers)"
    using gap_rows_are_the_unfollowed
      [of sample_str sample_following sample_followers "(JStr ''b'', JStr ''N/A'', JStr ''u/b'')",
        THEN conjunct2, THEN conjunct1]
      b nb by simp
  ultimately show ?thesis using a b na nb by blast
qed

lemma key_union_gap_rows:
  "key_union [''Username'', ''Followed At'', ''Profile URL''] (map (gap_row sf) es)
   = [''Username'', ''Followed At'', ''Profile URL'']"
  by (induction es) (auto simp: gap_row_def)

lemma columns_DataFrame_gap_rows:
  "columns (DataFrame (map (gap_row sf) es))
   = (if es = [] then [] else [''Username'', ''Followed At'', ''Profile URL''])"
proof (cases es)
  case Nil
  then show ?thesis by (simp add: DataFrame_def)
next
  case (Cons e es')
  have "key_union [] (map (gap_row sf) (e # es'))
        = key_union [''Username'', ''Followed At'', ''Profile URL''] (map (gap_row sf) es')"
    by (cases e) (simp add: gap_row_def)
  then show ?thesis using Cons by (simp add: DataFrame_def Let_def key_union_gap_rows)
qed

lemma cells_gap_row:
  "map (\<lambda>c. case map_of (gap_row sf e) c of Some v \<Rightarrow> v | None \<Rightarrow> JNull)
       [''Username'', ''Followed At'', ''Profile URL'']
   = map snd (gap_row sf e)"
  by (cases e) (simp add: gap_row_def)

lemma rows_DataFrame_gap_rows:
  "rows (DataFrame (map (gap_row sf) es)) = map (\<lambda>e. map snd (gap_row sf e)) es"
proof (cases "es = []")
  case True
  then show ?thesis by (simp add: DataFrame_def)
next
  case False
  have "columns (DataFrame (map (gap_row sf) es)) = [''Username'', ''Followed At'', ''Profile URL'']"
    using False by (simp only: columns_DataFrame_gap_rows if_False)
  then have c: "key_union [] (map (gap_row sf) es) = [''Username'', ''Followed At'', ''Profile URL'']"
    by (simp add: DataFrame_def Let_def)
  have "rows (DataFrame (map (gap_row sf) es))
        = map (\<lambda>r. map (\<lambda>c. case map_of r c of Some v \<Rightarrow> v | None \<Rightarrow> JNull)
                       [''Username'', ''Followed At'', ''Profile URL'']) (map (gap_row sf) es)"
    unfolding DataFrame_def Let_def c by simp
  also have "\<dots> = map (\<lambda>e. map snd (gap_row sf e)) es"
    unfolding map_map o_def cells_gap_row ..
  finally show ?thesis .
qed

text \<open>The comprehensions keep the order of what they iterate over: when no element
  raises, the result lists the values of the elements one by one.\<close>

lemma collect_Inr_iff: "collect f xs = Inr ys \<longleftrightarrow> map f xs = map Inr ys"
proof (induction xs arbitrary: ys)
  case Nil
  then show ?case by auto
next
  case (Cons x xs)
  show ?case
  proof (cases "f x")
    case (Inl e)
    then show ?thesis by (cases ys) auto
  next
    case (Inr y)
    show ?thesis
    proof (cases "collect f xs")
      case (Inl e)
      with Cons.IH have "map f xs \<noteq> map Inr zs" for zs by auto
      with Inl Inr show ?thesis by (cases ys) auto
    next
      case r: (Inr zs)
      from Cons.IH [of zs] r have m: "map f xs = map Inr zs" by simp
      have "(map Inr zs = (map Inr ys' :: (error + _) list)) = (zs = ys')" for ys'
        by (rule inj_map_eq_map) simp
      with r Inr m show ?thesis by (cases ys) auto
    qed
  qed
qed

lemma following_keeps_order:
  assumes "following (JDict kvs) = Inr fing"
    and "map_of kvs ''relationships_following'' = Some (JList entries)"
  shows "map following_entry entries = map Inr fing"
  using assms by (simp add: following_def py_get_def py_iter_def collect_Inr_iff)

text \<open>
  Claim C5. The gap computation keeps the order of the following list: the rows of
  the output are the rows of a subsequence of the following entries, the entries whose
  username is not among the followers, in the order in which the following list has
  them; the frame handed to the spreadsheet writer has its rows in that same order.
  (The following list itself has the entries of the export in their order:
  \<open>following_keeps_order\<close>.)
\<close>

theorem gap_rows_keep_following_order:
  "\<exists>es. subseq es fing
      \<and> set es = {e \<in> set fing. \<not> py_in (fst e) fers}
      \<and> not_following_back sf fing fers = map (gap_row sf) es
      \<and> rows (DataFrame (not_following_back sf fing fers)) = map (\<lambda>e. map snd (gap_row sf e)) es"
proof (intro exI conjI)
  show "subseq (filter (\<lambda>e. \<not> py_in (fst e) fers) fing) fing"
    by simp
  show "set (filter (\<lambda>e. \<not> py_in (fst e) fers) fing) = {e \<in> set fing. \<not> py_in (fst e) fers}"
    by simp
  show "not_following_back sf fing fers
        = map (gap_row sf) (filter (\<lambda>e. \<not> py_in (fst e) fers) fing)"
    by (rule not_following_back_filter)
  show "rows (DataFrame (not_following_back sf fing fers))
        = map (\<lambda>e. map snd (gap_row sf e)) (filter (\<lambda>e. \<not> py_in (fst e) fers) fing)"
    unfolding not_following_back_filter by (rule rows_DataFrame_gap_rows)
qed

subsection \<open>Loading and extraction\<close>

lemma paths_differ:
  "following_json \<noteq> followers_json" "followers_json \<noteq> following_json"
  "output_file \<noteq> following_json" "output_file \<noteq> followers_json"
  by (simp_all add: following_json_def followers_json_def output_file_def)

lemma first_record_entry_b:
  "first_record entry_b = Inr (JDict [(''href'', JStr ''u/b''), (''value'', JStr ''b'')])"
  by (simp add: entry_b_def first_record_def subscript_key_def subscript_0_def)

lemma followers_entry_b: "followers (JList [entry_b]) = Inr [JStr ''b'']"
  by (simp add: followers_def py_iter_def record_field_def first_record_entry_b subscript_key_def)

lemma DataFrame_Nil: "DataFrame [] = \<lparr>columns = [], rows = []\<rparr>"
  by (simp add: DataFrame_def)

lemma not_following_back_Nil: "not_following_back sf [] fers = []"
  by (simp add: not_following_back_def)

text \<open>
  Claim C7. With nothing followed (and so an empty sequence of rows), the frame built
  from the rows has no column at all, and the sheet written holds neither a header nor
  a row: the three column labels come from the keys of the row dicts, and there is no
  dict to take them from.
\<close>

theorem empty_gap_has_no_header:
  "following (JDict [(''relationships_following'', JList [])]) = Inr []
   \<and> columns (DataFrame (not_following_back sample_str [] [JStr ''b''])) = []
   \<and> pipeline_A sample_str files_nothing_followed
       = (Completed, files_nothing_followed(output_file \<mapsto> Sheet \<lparr>columns = [], rows = []\<rparr>))"
proof -
  have f: "following (JDict [(''relationships_following'', JList [])]) = Inr []"
    by (simp add: following_def py_get_def py_iter_def)
  have l1: "load_json_file files_nothing_followed following_json
            = Inr (JDict [(''relationships_following'', JList [])])"
    by (simp add: load_json_file_def files_nothing_followed_def paths_differ)
  have l2: "load_json_file files_nothing_followed followers_json = Inr (JList [entry_b])"
    by (simp add: load_json_file_def files_nothing_followed_def paths_differ)
  have "pipeline_A sample_str files_nothing_followed
       = (Completed, files_nothing_followed(output_file \<mapsto> Sheet \<lparr>columns = [], rows = []\<rparr>))"
    by (simp add: pipeline_A_def l1 l2 f followers_entry_b not_following_back_Nil DataFrame_Nil
        to_excel_def)
  then show ?thesis using f by (simp add: not_following_back_Nil DataFrame_Nil)
qed

lemma pipeline_A_no_following:
  "fs following_json = None \<Longrightarrow> pipeline_A sf fs = (Raised (FileNotFoundError following_json), fs)"
  by (simp add: pipeline_A_def load_json_file_def)

lemma pipeline_A_no_followers:
  "fs following_json = Some (Json doc) \<Longrightarrow> fs followers_json = None
   \<Longrightarrow> pipeline_A sf fs = (Raised (FileNotFoundError followers_json), fs)"
  by (simp add: pipeline_A_def load_json_file_def)

lemma pipeline_A_missing_raises:
  assumes "fs following_json = None \<or> fs followers_json = None"
  shows "\<exists>e. pipeline_A sf fs = (Raised e, fs)"
proof (cases "load_json_file fs following_json")
  case (Inl e)
  then show ?thesis by (simp add: pipeline_A_def)
next
  case (Inr doc)
  then have "fs following_json \<noteq> None"
    by (auto simp: load_json_file_def split: option.splits)
  with assms have "fs followers_json = None" by simp
  then have "load_json_file fs followers_json = Inl (FileNotFoundError followers_json)"
    by (simp add: load_json_file_def)
  with Inr show ?thesis by (simp add: pipeline_A_def)
qed

text \<open>
  Claim C8. If \<^verbatim>\<open>following.json\<close> does not exist, the run raises FileNotFoundError
  with that path; if \<^verbatim>\<open>following.json\<close> holds a JSON document and \<^verbatim>\<open>followers.json\<close>
  does not exist, the run raises FileNotFoundError with the followers path. Whenever
  either file is missing the run ends with an exception and the files, the output
  sheet among them, are as they were.
\<close>

theorem missing_input_raises_before_write:
  "(fs following_json = None \<longrightarrow>
      pipeline_A sf fs = (Raised (FileNotFoundError following_json), fs))
   \<and> (fs following_json = Some (Json doc) \<and> fs followers_json = None \<longrightarrow>
      pipeline_A sf fs = (Raised (FileNotFoundError followers_json), fs))
   \<and> (fs following_json = None \<or> fs followers_json = None \<longrightarrow>
      (\<exists>e. pipeline_A sf fs = (Raised e, fs)))"
  using pipeline_A_no_following pipeline_A_no_followers pipeline_A_missing_raises by blast

theorem missing_input_raises_before_write_witness:
  "files_no_following following_json = None
   \<and> pipeline_A sample_str files_no_following
       = (Raised (FileNotFoundError following_json), files_no_following)
   \<and> files_no_followers following_json
       = Some (Json (JDict [(''relationships_following'', JList [entry_b])]))
   \<and> files_no_followers followers_json = None
   \<and> pipeline_A sample_str files_no_followers
       = (Raised (FileNotFoundError followers_json), files_no_followers)"
proof -
  have a: "files_no_following following_json = None"
    by (simp add: files_no_following_def paths_differ)
  have b: "files_no_followers following_json
           = Some (Json (JDict [(''relationships_following'', JList [entry_b])]))"
    and c: "files_no_followers followers_json = None"
    by (simp_all add: files_no_followers_def paths_differ)
  have "pipeline_A sample_str files_no_following
        = (Raised (FileNotFoundError following_json), files_no_following)"
    using missing_input_raises_before_write [of files_no_following sample_str, THEN conjunct1] a
    by simp
  moreover have "pipeline_A sample_str files_no_followers
        = (Raised (FileNotFoundError followers_json), files_no_followers)"
    using missing_input_raises_before_write
      [of files_no_followers sample_str "JDict [(''relationships_following'', JList [entry_b])]",
        THEN conjunct2, THEN conjunct1] b c
    by simp
  ultimately show ?thesis using a b c by blast
qed


lemma gap_row_Followed_At: "map_of (gap_row sf (u, t, h)) ''Followed At'' = Some t"
  by (simp add: gap_row_def)

lemma record_timestamp_default:
  assumes "first_record entry = Inr (JDict kvs)" and "map_of kvs ''timestamp'' = None"
  shows "record_timestamp entry = Inr (JStr ''N/A'')"
  using assms by (simp add: record_timestamp_def py_get_def)

lemma following_entry_no_timestamp:
  assumes r: "first_record entry = Inr r"
    and no: "\<forall>kvs. r = JDict kvs \<longrightarrow> map_of kvs ''timestamp'' = None"
  shows "following_entry entry =
     (case subscript_key r ''value'' of
        Inl e \<Rightarrow> Inl e
      | Inr u \<Rightarrow> (case subscript_key r ''href'' of
                    Inl e \<Rightarrow> Inl e
                  | Inr h \<Rightarrow> Inr (u, JStr ''N/A'', h)))"
proof (cases r)
  case (JDict kvs)
  with no have "map_of kvs ''timestamp'' = None" by simp
  with r JDict have "record_timestamp entry = Inr (JStr ''N/A'')"
    by (simp add: record_timestamp_default)
  with r show ?thesis
    by (simp add: following_entry_def record_field_def split: sum.splits)
qed (use r in \<open>simp_all add: following_entry_def record_field_def subscript_key_def\<close>)

text \<open>
  Claim C9. For an entry whose first \<^verbatim>\<open>string_list_data\<close> record has no key
  \<^verbatim>\<open>timestamp\<close>, the extraction raises only what the subscripts \<^verbatim>\<open>["value"]\<close> and
  \<^verbatim>\<open>["href"]\<close> raise, and otherwise gives the tuple with \<^verbatim>\<open>"N/A"\<close> in the second
  place, which is the cell Followed At of the entry's row.
\<close>

theorem missing_timestamp_gives_NA:
  assumes "first_record entry = Inr r"
    and "\<forall>kvs. r = JDict kvs \<longrightarrow> map_of kvs ''timestamp'' = None"
  shows "following_entry entry =
           (case subscript_key r ''value'' of
              Inl e \<Rightarrow> Inl e
            | Inr u \<Rightarrow> (case subscript_key r ''href'' of
                          Inl e \<Rightarrow> Inl e
                        | Inr h \<Rightarrow> Inr (u, JStr ''N/A'', h)))
         \<and> (\<forall>u t h. following_entry entry = Inr (u, t, h) \<longrightarrow>
               t = JStr ''N/A''
               \<and> map_of (gap_row sf (u, t, h)) ''Followed At'' = Some (JStr ''N/A''))"
proof -
  have eq: "following_entry entry =
           (case subscript_key r ''value'' of
              Inl e \<Rightarrow> Inl e
            | Inr u \<Rightarrow> (case subscript_key r ''href'' of
                          Inl e \<Rightarrow> Inl e
                        | Inr h \<Rightarrow> Inr (u, JStr ''N/A'', h)))"
    using assms by (rule following_entry_no_timestamp)
  have "t = JStr ''N/A''" if "following_entry entry = Inr (u, t, h)" for u t h
    using that unfolding eq by (auto split: sum.splits)
  then show ?thesis using eq by (simp add: gap_row_Followed_At)
qed

theorem missing_timestamp_gives_NA_witness:
  "first_record entry_b = Inr (JDict [(''href'', JStr ''u/b''), (''value'', JStr ''b'')])
   \<and> map_of [(''href'', JStr ''u/b''), (''value'', JStr ''b'')] ''timestamp'' = None
   \<and> following_entry entry_b = Inr (JStr ''b'', JStr ''N/A'', JStr ''u/b'')"
proof -
  have n: "\<forall>kvs. JDict [(''href'', JStr ''u/b''), (''value'', JStr ''b'')] = JDict kvs
             \<longrightarrow> map_of kvs ''timestamp'' = None"
    by auto
  have "following_entry entry_b = Inr (JStr ''b'', JStr ''N/A'', JStr ''u/b'')"
    using missing_timestamp_gives_NA [OF first_record_entry_b n, of sample_str, THEN conjunct1]
    by (simp add: subscript_key_def)
  then show ?thesis using first_record_entry_b by simp
qed

lemma following_no_key:
  "map_of kvs ''relationships_following'' = None \<Longrightarrow> following (JDict kvs) = Inr []"
  by (simp add: following_def py_get_def py_iter_def)

text \<open>
  Claim C10. When the following document is an object without the key
  \<^verbatim>\<open>relationships_following\<close> (and the followers file loads and its entries are
  well formed), the following list is empty, no exception is raised, and the run
  completes having written a report without rows.
\<close>

theorem missing_relationships_key_gives_empty_report:
  assumes "fs following_json = Some (Json (JDict kvs))"
    and "map_of kvs ''relationships_following'' = None"
    and "fs followers_json = Some (Json followers_data)"
    and "followers followers_data = Inr fers"
  shows "following (JDict kvs) = Inr []
         \<and> pipeline_A sf fs = (Completed, fs(output_file \<mapsto> Sheet \<lparr>columns = [], rows = []\<rparr>))"
  using assms
  by (simp add: pipeline_A_def load_json_file_def following_no_key not_following_back_Nil
      DataFrame_Nil to_excel_def)

theorem missing_relationships_key_gives_empty_report_witness:
  "files_no_key following_json = Some (Json (JDict []))
   \<and> map_of ([] :: (string \<times> json) list) ''relationships_following'' = None
   \<and> files_no_key followers_json = Some (Json (JList [entry_b]))
   \<and> followers (JList [entry_b]) = Inr [JStr ''b'']
   \<and> pipeline_A sample_str files_no_key
       = (Completed, files_no_key(output_file \<mapsto> Sheet \<lparr>columns = [], rows = []\<rparr>))"
proof -
  have a: "files_no_key following_json = Some (Json (JDict []))"
    and b: "files_no_key followers_json = Some (Json (JList [entry_b]))"
    by (simp_all add: files_no_key_def paths_differ)
  have c: "map_of ([] :: (string \<times> json) list) ''relationships_following'' = None"
    by simp
  have "pipeline_A sample_str files_no_key
       = (Completed, files_no_key(output_file \<mapsto> Sheet \<lparr>columns = [], rows = []\<rparr>))"
    using missing_relationships_key_gives_empty_report [OF a c b followers_entry_b, of sample_str]
    by simp
  then show ?thesis using a b c followers_entry_b by blast
qed

section \<open>Properties of Pipeline B\<close>

lemma set_failed_emails:
  "set (failed_emails ok i xs acc)
   = set acc \<union> {xs ! k |k. k < length xs \<and> \<not> ok (i + k) (xs ! k)}"
proof (induction xs arbitrary: i acc)
  case Nil
  then show ?case by simp
next
  case (Cons x xs)
  have split: "{(x # xs) ! k |k. k < length (x # xs) \<and> \<not> ok (i + k) ((x # xs) ! k)}
        = (if ok i x then {} else {x}) \<union> {xs ! k |k. k < length xs \<and> \<not> ok (Suc i + k) (xs ! k)}"
    (is "?L = ?R")
  proof (intro set_eqI iffI)
    fix y assume "y \<in> ?L"
    then obtain k where k: "y = (x # xs) ! k" "k < length (x # xs)" "\<not> ok (i + k) ((x # xs) ! k)"
      by blast
    show "y \<in> ?R"
    proof (cases k)
      case 0
      with k show ?thesis by auto
    next
      case (Suc j)
      with k have "y = xs ! j" "j < length xs" "\<not> ok (Suc i + j) (xs ! j)" by auto
      then show ?thesis by blast
    qed
  next
    fix y assume "y \<in> ?R"
    then consider "\<not> ok i x" "y = x"
      | j where "y = xs ! j" "j < length xs" "\<not> ok (Suc i + j) (xs ! j)"
      by (auto split: if_splits)
    then show "y \<in> ?L"
    proof cases
      case 1
      then have "y = (x # xs) ! 0 \<and> 0 < length (x # xs) \<and> \<not> ok (i + 0) ((x # xs) ! 0)" by simp
      then show ?thesis by blast
    next
      case 2
      then have "y = (x # xs) ! Suc j \<and> Suc j < length (x # xs) \<and> \<not> ok (i + Suc j) ((x # xs) ! Suc j)"
        by simp
      then show ?thesis by blast
    qed
  qed
  show ?case unfolding split by (simp add: Cons.IH)
qed

lemma failed_emails_all_fail:
  "(\<And>k. k < length xs \<Longrightarrow> \<not> ok (i + k) (xs ! k)) \<Longrightarrow> failed_emails ok i xs acc = acc @ xs"
proof (induction xs arbitrary: i acc)
  case Nil
  then show ?case by simp
next
  case (Cons x xs)
  from Cons.prems[of 0] have x: "\<not> ok i x" by simp
  have "\<not> ok (Suc i + k) (xs ! k)" if "k < length xs" for k
    using Cons.prems[of "Suc k"] that by simp
  then have "failed_emails ok (Suc i) xs (acc @ [x]) = (acc @ [x]) @ xs"
    by (rule Cons.IH)
  with x show ?case by simp
qed

lemma creds_valid:
  "token_pickle d = Some c \<Longrightarrow> valid c \<Longrightarrow> creds ev d = (Inr c, d, [])"
  by (simp add: creds_def)

lemma creds_stale:
  assumes "token_pickle d = Some c" "\<not> valid c" "expired c" "truthy (refresh_token c)"
  shows "creds ev d = persist (refresh ev c) [Refresh] d"
  using assms by (simp add: creds_def)

lemma pipeline_B_completes:
  assumes "email_list d = Some df" and "emails df = Inr recipients"
    and "creds ev d = (Inr c, d', steps)"
    and "index_of ''Email'' (columns df) = Some i"
  shows "pipeline_B ev d =
     (Completed,
      d'\<lparr>email_list :=
           Some (df\<lparr>rows := filter (\<lambda>r. isin (cell_at r i) (failed_emails (send ev) 0 recipients []))
                                 (rows df)\<rparr>)\<rparr>)"
  using assms by (simp add: pipeline_B_def remaining_df_def)

lemma pipeline_B_raises:
  assumes "email_list d = Some df" and "emails df = Inr recipients"
    and "creds ev d = (Inl e, d', steps)"
  shows "pipeline_B ev d = (Raised e, d')"
  using assms by (simp add: pipeline_B_def)


lemma emails_eq:
  "index_of ''Email'' (columns df) = Some i \<Longrightarrow>
   emails df = Inr (map (\<lambda>c. strip (astype_str c)) (filter (\<lambda>c. c \<noteq> NaN) (map (\<lambda>r. cell_at r i) (rows df))))"
  by (simp add: emails_def column_def dropna_def)

text \<open>
  Claim C3. Loading the recipients drops the missing cells only. A cell of three
  spaces is kept and becomes the empty address, to which a message is then sent; a
  cell with an address between spaces is kept with the spaces trimmed.
\<close>

theorem whitespace_cell_becomes_empty_recipient:
  "emails \<lparr>columns = [''Email''], rows = [[Text ''   '']]\<rparr> = Inr [[]]
   \<and> emails \<lparr>columns = [''Email''], rows = [[NaN], [Text '' a@b.com '']]\<rparr> = Inr [''a@b.com'']"
  by (simp add: emails_def column_def cell_at_def dropna_def strip_def py_isspace_def)

text \<open>
  Claim C2, as stated, fails when an address is listed twice: the first send to it
  fails, the second succeeds, and both rows are in the rewritten sheet, the row whose
  send succeeded among them.
\<close>

theorem duplicate_address_counterexample:
  "emails sheet_twice = Inr [''y@x.org'', ''y@x.org'']
   \<and> \<not> send env_second_succeeds 0 ''y@x.org''
   \<and> send env_second_succeeds 1 ''y@x.org''
   \<and> failed_emails (send env_second_succeeds) 0 [''y@x.org'', ''y@x.org''] [] = [''y@x.org'']
   \<and> pipeline_B env_second_succeeds disk_twice
       = (Completed, \<lparr>email_list = Some sheet_twice, token_pickle = Some fresh_token\<rparr>)"
proof -
  have e: "emails sheet_twice = Inr [''y@x.org'', ''y@x.org'']"
    by (simp add: emails_def sheet_twice_def column_def cell_at_def dropna_def strip_def
        py_isspace_def)
  have s: "\<not> send env_second_succeeds 0 ''y@x.org''" "send env_second_succeeds 1 ''y@x.org''"
    by (simp_all add: env_second_succeeds_def second_succeeds_def)
  have f: "failed_emails (send env_second_succeeds) 0 [''y@x.org'', ''y@x.org''] [] = [''y@x.org'']"
    using s by simp
  have c: "creds env_second_succeeds disk_twice = (Inr fresh_token, disk_twice, [])"
    by (rule creds_valid) (simp_all add: disk_twice_def fresh_token_def)
  have i: "index_of ''Email'' (columns sheet_twice) = Some 0"
    by (simp add: sheet_twice_def)
  have d: "email_list disk_twice = Some sheet_twice"
    by (simp add: disk_twice_def)
  have "pipeline_B env_second_succeeds disk_twice
       = (Completed,
          disk_twice\<lparr>email_list :=
            Some (sheet_twice\<lparr>rows :=
              filter (\<lambda>r. isin (cell_at r 0)
                        (failed_emails (send env_second_succeeds) 0 [''y@x.org'', ''y@x.org''] []))
                (rows sheet_twice)\<rparr>)\<rparr>)"
    by (rule pipeline_B_completes [OF d e c i])
  also have "\<dots> = (Completed, \<lparr>email_list = Some sheet_twice, token_pickle = Some fresh_token\<rparr>)"
    unfolding f by (simp add: disk_twice_def sheet_twice_def cell_at_def)
  finally have "pipeline_B env_second_succeeds disk_twice
       = (Completed, \<lparr>email_list = Some sheet_twice, token_pickle = Some fresh_token\<rparr>)" .
  with e s f show ?thesis by blast
qed

text \<open>
  Claim C2, amended. After a run that reaches its end, the rewritten sheet has the
  header of the original and a subsequence of its rows. A row whose Email cell is a
  string without surrounding whitespace is in the rewritten sheet if and only if its
  address is in the list of failed addresses, that is, if and only if some send to that
  address failed. So such a row is present when a send to its address failed and absent
  when every send to its address succeeded.
\<close>

theorem kept_rows_are_failed_addresses:
  assumes "email_list d = Some df" and "emails df = Inr recipients"
    and "creds ev d = (Inr c, d', steps)"
    and "index_of ''Email'' (columns df) = Some i"
    and "r \<in> set (rows df)" and "cell_at r i = Text s" and "strip s = s"
  shows "\<exists>kept. pipeline_B ev d = (Completed, d'\<lparr>email_list := Some kept\<rparr>)
           \<and> columns kept = columns df
           \<and> subseq (rows kept) (rows df)
           \<and> s \<in> set recipients
           \<and> (r \<in> set (rows kept)) = (s \<in> set (failed_emails (send ev) 0 recipients []))
           \<and> (s \<in> set (failed_emails (send ev) 0 recipients []))
               = (\<exists>k<length recipients. recipients ! k = s \<and> \<not> send ev k s)"
proof -
  let ?failed = "failed_emails (send ev) 0 recipients []"
  let ?kept = "df\<lparr>rows := filter (\<lambda>r. isin (cell_at r i) ?failed) (rows df)\<rparr>"
  have run: "pipeline_B ev d = (Completed, d'\<lparr>email_list := Some ?kept\<rparr>)"
    using assms(1-4) by (rule pipeline_B_completes)
  define cs where "cs = filter (\<lambda>c. c \<noteq> NaN) (map (\<lambda>r. cell_at r i) (rows df))"
  have "Text s \<in> set cs"
    unfolding cs_def using assms(5,6) by force
  moreover have "strip (astype_str (Text s)) = s"
    using assms(7) by simp
  ultimately have "s \<in> (\<lambda>c. strip (astype_str c)) ` set cs"
    by (metis imageI)
  moreover have "recipients = map (\<lambda>c. strip (astype_str c)) cs"
    unfolding cs_def using assms(2) emails_eq [OF assms(4)] by simp
  ultimately have mem: "s \<in> set recipients"
    by (simp only: set_map)
  have kept: "(r \<in> set (rows ?kept)) = (s \<in> set ?failed)"
    using assms(5,6) by simp
  have failed: "(s \<in> set ?failed) = (\<exists>k<length recipients. recipients ! k = s \<and> \<not> send ev k s)"
    by (auto simp: set_failed_emails)
  have "columns ?kept = columns df" and "subseq (rows ?kept) (rows df)"
    by simp_all
  with run mem kept failed show ?thesis by blast
qed


theorem kept_rows_are_failed_addresses_witness:
  "email_list disk_twice = Some sheet_twice
   \<and> emails sheet_twice = Inr [''y@x.org'', ''y@x.org'']
   \<and> creds env_second_succeeds disk_twice = (Inr fresh_token, disk_twice, [])
   \<and> index_of ''Email'' (columns sheet_twice) = Some 0
   \<and> [Text ''y@x.org''] \<in> set (rows sheet_twice)
   \<and> cell_at [Text ''y@x.org''] 0 = Text ''y@x.org''
   \<and> strip ''y@x.org'' = ''y@x.org''
   \<and> (\<exists>kept. pipeline_B env_second_succeeds disk_twice
                 = (Completed, disk_twice\<lparr>email_list := Some kept\<rparr>)
          \<and> [Text ''y@x.org''] \<in> set (rows kept))"
proof -
  have d: "email_list disk_twice = Some sheet_twice"
    by (simp add: disk_twice_def)
  have e: "emails sheet_twice = Inr [''y@x.org'', ''y@x.org'']"
    by (simp add: emails_def sheet_twice_def column_def cell_at_def dropna_def strip_def
        py_isspace_def)
  have c: "creds env_second_succeeds disk_twice = (Inr fresh_token, disk_twice, [])"
    by (rule creds_valid) (simp_all add: disk_twice_def fresh_token_def)
  have i: "index_of ''Email'' (columns sheet_twice) = Some 0"
    by (simp add: sheet_twice_def)
  have r: "[Text ''y@x.org''] \<in> set (rows sheet_twice)"
    by (simp add: sheet_twice_def)
  have t: "cell_at [Text ''y@x.org''] 0 = Text ''y@x.org''"
    by (simp add: cell_at_def)
  have s: "strip ''y@x.org'' = ''y@x.org''"
    by (simp add: strip_def py_isspace_def)
  have f: "''y@x.org'' \<in> set (failed_emails (send env_second_succeeds) 0 [''y@x.org'', ''y@x.org''] [])"
    by (simp add: env_second_succeeds_def second_succeeds_def)
  from kept_rows_are_failed_addresses [OF d e c i r t s] f
  have "\<exists>kept. pipeline_B env_second_succeeds disk_twice
                 = (Completed, disk_twice\<lparr>email_list := Some kept\<rparr>)
          \<and> [Text ''y@x.org''] \<in> set (rows kept)"
    by blast
  with d e c i r t s show ?thesis by blast
qed

lemma all_fail_keeps_trimmed_rows:
  assumes idx: "index_of ''Email'' (columns df) = Some i"
    and clean: "\<And>r. r \<in> set (rows df) \<Longrightarrow>
                  cell_at r i = NaN \<or> (\<exists>s. cell_at r i = Text s \<and> strip s = s)"
    and rec: "emails df = Inr recipients"
    and fail: "\<And>k. k < length recipients \<Longrightarrow> \<not> ok k (recipients ! k)"
  shows "map (\<lambda>r. astype_str (cell_at r i))
           (filter (\<lambda>r. isin (cell_at r i) (failed_emails ok 0 recipients [])) (rows df))
         = recipients"
proof -
  have failed: "failed_emails ok 0 recipients [] = recipients"
    using failed_emails_all_fail [of recipients ok 0 "[]"] fail by simp
  have recs: "recipients
      = map (\<lambda>c. strip (astype_str c)) (filter (\<lambda>c. c \<noteq> NaN) (map (\<lambda>r. cell_at r i) (rows df)))"
    using rec emails_eq [OF idx] by simp
  then have recs': "recipients
      = map (\<lambda>r. strip (astype_str (cell_at r i))) (filter (\<lambda>r. cell_at r i \<noteq> NaN) (rows df))"
    by (simp add: filter_map o_def)
  have same: "strip (astype_str (cell_at r i)) = astype_str (cell_at r i)"
    if "r \<in> set (rows df)" "cell_at r i \<noteq> NaN" for r
    using clean [OF that(1)] that(2) by auto
  have keep: "isin (cell_at r i) recipients = (cell_at r i \<noteq> NaN)" if "r \<in> set (rows df)" for r
  proof (cases "cell_at r i = NaN")
    case True
    then show ?thesis by simp
  next
    case False
    with clean [OF that] obtain s where s: "cell_at r i = Text s" "strip s = s" by auto
    have "r \<in> set (filter (\<lambda>r. cell_at r i \<noteq> NaN) (rows df))"
      using that False by simp
    then have "strip (astype_str (cell_at r i)) \<in> set recipients"
      unfolding recs' set_map by (rule imageI)
    with s False show ?thesis by simp
  qed
  have "filter (\<lambda>r. isin (cell_at r i) recipients) (rows df)
        = filter (\<lambda>r. cell_at r i \<noteq> NaN) (rows df)"
    by (rule filter_cong) (simp_all add: keep)
  moreover have "map (\<lambda>r. astype_str (cell_at r i)) (filter (\<lambda>r. cell_at r i \<noteq> NaN) (rows df))
        = map (\<lambda>r. strip (astype_str (cell_at r i))) (filter (\<lambda>r. cell_at r i \<noteq> NaN) (rows df))"
    by (rule map_cong) (simp_all add: same)
  ultimately show ?thesis unfolding failed using recs' by simp
qed

text \<open>
  Claim C4. With one recipient whose cell has a space on each side, and every send
  failing, the recipient list before the run is the one trimmed address and the
  rewritten sheet has no row: the filter compares the cell as it stands in the sheet
  with the trimmed address that was sent to. (For a sheet whose Email cells are all
  missing or trimmed strings, \<open>all_fail_keeps_trimmed_rows\<close> gives the equality.)
\<close>

theorem padded_address_is_lost_when_all_sends_fail:
  "emails sheet_padded = Inr [''a@b.com'']
   \<and> \<not> send env_all_fail 0 ''a@b.com''
   \<and> failed_emails (send env_all_fail) 0 [''a@b.com''] [] = [''a@b.com'']
   \<and> pipeline_B env_all_fail disk_padded
       = (Completed,
          \<lparr>email_list = Some \<lparr>columns = [''Email''], rows = []\<rparr>,
           token_pickle = Some fresh_token\<rparr>)"
proof -
  have d: "email_list disk_padded = Some sheet_padded"
    by (simp add: disk_padded_def)
  have e: "emails sheet_padded = Inr [''a@b.com'']"
    by (simp add: emails_def sheet_padded_def column_def cell_at_def dropna_def strip_def
        py_isspace_def)
  have s: "\<not> send env_all_fail 0 ''a@b.com''"
    by (simp add: env_all_fail_def all_fail_def)
  have f: "failed_emails (send env_all_fail) 0 [''a@b.com''] [] = [''a@b.com'']"
    using s by simp
  have c: "creds env_all_fail disk_padded = (Inr fresh_token, disk_padded, [])"
    by (rule creds_valid) (simp_all add: disk_padded_def fresh_token_def)
  have i: "index_of ''Email'' (columns sheet_padded) = Some 0"
    by (simp add: sheet_padded_def)
  have "pipeline_B env_all_fail disk_padded
       = (Completed,
          disk_padded\<lparr>email_list :=
            Some (sheet_padded\<lparr>rows :=
              filter (\<lambda>r. isin (cell_at r 0) (failed_emails (send env_all_fail) 0 [''a@b.com''] []))
                (rows sheet_padded)\<rparr>)\<rparr>)"
    by (rule pipeline_B_completes [OF d e c i])
  also have "\<dots> = (Completed,
          \<lparr>email_list = Some \<lparr>columns = [''Email''], rows = []\<rparr>,
           token_pickle = Some fresh_token\<rparr>)"
    unfolding f by (simp add: disk_padded_def sheet_padded_def cell_at_def)
  finally show ?thesis using e s f by blast
qed

text \<open>
  Claim C6, as stated, fails: with a stored token that is expired and has a refresh
  token, and a refresh that raises, the run ends with that exception. The interactive
  flow, which would have succeeded, is not run, and nothing is written.
\<close>

theorem failed_refresh_counterexample:
  "token_pickle disk_stale = Some stale_token
   \<and> \<not> valid stale_token \<and> expired stale_token \<and> truthy (refresh_token stale_token)
   \<and> refresh env_refresh_fails stale_token = Inl RefreshError
   \<and> run_local_server env_refresh_fails = Inr fresh_token
   \<and> creds env_refresh_fails disk_stale = (Inl RefreshError, disk_stale, [Refresh])
   \<and> pipeline_B env_refresh_fails disk_stale = (Raised RefreshError, disk_stale)"
proof -
  have t: "token_pickle disk_stale = Some stale_token"
    and d: "email_list disk_stale = Some sheet_one"
    by (simp_all add: disk_stale_def)
  have st: "\<not> valid stale_token" "expired stale_token" "truthy (refresh_token stale_token)"
    by (simp_all add: stale_token_def truthy_def)
  have r: "refresh env_refresh_fails stale_token = Inl RefreshError"
    and l: "run_local_server env_refresh_fails = Inr fresh_token"
    by (simp_all add: env_refresh_fails_def refresh_fails_def)
  have c: "creds env_refresh_fails disk_stale = (Inl RefreshError, disk_stale, [Refresh])"
    by (simp add: creds_stale [OF t st] r persist_def)
  have e: "emails sheet_one = Inr [''y@x.org'']"
    by (simp add: emails_def sheet_one_def column_def cell_at_def dropna_def strip_def
        py_isspace_def)
  have "pipeline_B env_refresh_fails disk_stale = (Raised RefreshError, disk_stale)"
    by (rule pipeline_B_raises [OF d e c])
  with t st r l c show ?thesis by blast
qed

text \<open>
  Claim C6, amended. When the stored token is present, not valid, expired and has a
  refresh token, the credential manager attempts the silent refresh and nothing else:
  if the refresh succeeds the refreshed credential is written to \<^verbatim>\<open>token.pickle\<close>; if
  it raises, the exception is not caught, the interactive flow is not run, and the run
  terminates with the files unchanged.
\<close>

theorem stale_token_refresh_without_fallback:
  assumes "token_pickle d = Some c" and "\<not> valid c" and "expired c"
    and "truthy (refresh_token c)"
  shows "creds ev d =
           (case refresh ev c of
              Inl e \<Rightarrow> (Inl e, d, [Refresh])
            | Inr c' \<Rightarrow> (Inr c', save_token c' d, [Refresh, SaveToken]))
         \<and> (\<forall>e df recipients.
               refresh ev c = Inl e \<and> email_list d = Some df \<and> emails df = Inr recipients
               \<longrightarrow> pipeline_B ev d = (Raised e, d))"
proof -
  have c: "creds ev d =
           (case refresh ev c of
              Inl e \<Rightarrow> (Inl e, d, [Refresh])
            | Inr c' \<Rightarrow> (Inr c', save_token c' d, [Refresh, SaveToken]))"
    by (simp add: creds_stale [OF assms] persist_def split: sum.splits)
  have "pipeline_B ev d = (Raised e, d)"
    if "refresh ev c = Inl e" "email_list d = Some df" "emails df = Inr recipients"
    for e df recipients
    using that c by (simp add: pipeline_B_def)
  with c show ?thesis by blast
qed

theorem stale_token_refresh_without_fallback_witness:
  "token_pickle disk_stale = Some stale_token
   \<and> \<not> valid stale_token \<and> expired stale_token \<and> truthy (refresh_token stale_token)
   \<and> creds env_all_fail disk_stale
       = (Inr (stale_token\<lparr>valid := True, expired := False\<rparr>),
          save_token (stale_token\<lparr>valid := True, expired := False\<rparr>) disk_stale,
          [Refresh, SaveToken])
   \<and> creds env_refresh_fails disk_stale = (Inl RefreshError, disk_stale, [Refresh])
   \<and> pipeline_B env_refresh_fails disk_stale = (Raised RefreshError, disk_stale)"
proof -
  have t: "token_pickle disk_stale = Some stale_token"
    and d: "email_list disk_stale = Some sheet_one"
    by (simp_all add: disk_stale_def)
  have st: "\<not> valid stale_token" "expired stale_token" "truthy (refresh_token stale_token)"
    by (simp_all add: stale_token_def truthy_def)
  have r: "refresh env_all_fail stale_token = Inr (stale_token\<lparr>valid := True, expired := False\<rparr>)"
    by (simp add: env_all_fail_def refresh_works_def)
  have r': "refresh env_refresh_fails stale_token = Inl RefreshError"
    by (simp add: env_refresh_fails_def refresh_fails_def)
  have e: "emails sheet_one = Inr [''y@x.org'']"
    by (simp add: emails_def sheet_one_def column_def cell_at_def dropna_def strip_def
        py_isspace_def)
  have ok: "creds env_all_fail disk_stale
       = (Inr (stale_token\<lparr>valid := True, expired := False\<rparr>),
          save_token (stale_token\<lparr>valid := True, expired := False\<rparr>) disk_stale,
          [Refresh, SaveToken])"
    using stale_token_refresh_without_fallback [OF t st, of env_all_fail, THEN conjunct1] r
    by simp
  have ko: "creds env_refresh_fails disk_stale = (Inl RefreshError, disk_stale, [Refresh])"
    using stale_token_refresh_without_fallback [OF t st, of env_refresh_fails, THEN conjunct1] r'
    by simp
  have run: "pipeline_B env_refresh_fails disk_stale = (Raised RefreshError, disk_stale)"
    using stale_token_refresh_without_fallback [OF t st, of env_refresh_fails, THEN conjunct2]
      r' d e
    by blast
  from t st ok ko run show ?thesis by blast
qed

end
